theory Spec2Isabelle
  imports Main
begin

section \<open>Data model\<close>

text \<open>
  The program is \<^verbatim>\<open>exercises/deploy.go\<close>: it reads the \<^verbatim>\<open>redis\<close> deployment, checks
  that its pods are ready, sets a new image, waits for the pods, sets the old image again and
  waits once more. The API server behind \<^verbatim>\<open>dClient\<close> and \<^verbatim>\<open>clientSet\<close> is not part of the
  repository; it is an explicit \<open>world\<close> that every call takes and returns.
\<close>

datatype status_reason = Conflict | NotFound | Forbidden | ServerTimeout | Unknown

text \<open>An error value returned by the client: its status reason and its \<^verbatim>\<open>Error()\<close> text.\<close>

datatype api_error = ApiError (reason: status_reason) (message: string)

text \<open>\<^verbatim>\<open>errors.IsConflict\<close>: the reason of the error is \<^verbatim>\<open>StatusReasonConflict\<close>.\<close>

definition IsConflict :: "api_error \<Rightarrow> bool" where
  "IsConflict e = (reason e = Conflict)"

text \<open>\<^verbatim>\<open>Deployment.Spec.Template.Spec.Containers\<close> and the fields around it.\<close>

record container =
  cname :: string
  image :: string

record deployment =
  dname :: string
  resourceVersion :: nat
  replicas :: nat
  containers :: "container list"

text \<open>\<^verbatim>\<open>Pod.Status.ContainerStatuses\<close>.\<close>

record container_status =
  sname :: string
  ready :: bool

record pod =
  pname :: string
  containerStatuses :: "container_status list"

section \<open>The API server\<close>

text \<open>
  What the server does at one \<^verbatim>\<open>Get\<close> or \<^verbatim>\<open>Update\<close> call of this client: another writer
  may have stored a descriptor just before the call (\<open>concurrent\<close>), and the call itself may
  fail (\<open>fault\<close>).
\<close>

datatype api_event = ApiEvent (concurrent: "deployment option") (fault: "api_error option")

text \<open>
  What the server answers to one \<^verbatim>\<open>Pods.List\<close> call, and how long the call takes
  (\<open>delay\<close>, in nanoseconds; in the polling loop it also covers a timer firing late).
\<close>

datatype list_answer = ListAnswer (delay: nat) (answer: "api_error + pod list")

record world =
  store :: deployment
  clock :: nat
  getEvents :: "nat \<Rightarrow> api_event"
  updateEvents :: "nat \<Rightarrow> api_event"
  listAnswers :: "nat \<Rightarrow> list_answer"
  gets :: nat
  updates :: nat
  lists :: nat
  written :: "deployment list"
  stdout :: "string list"

text \<open>
  Modelled from the spec: the server side of \<^verbatim>\<open>GetDesiredState\<close> and
  \<^verbatim>\<open>UpdateDesiredState\<close> (section 6) is outside the repository. A write by anyone stores the
  descriptor under the next version token; an update carrying a stale token fails with a
  version conflict and stores nothing.
\<close>

definition interfere :: "deployment option \<Rightarrow> deployment \<Rightarrow> deployment" where
  "interfere c s =
     (case c of None \<Rightarrow> s | Some d \<Rightarrow> d\<lparr>resourceVersion := resourceVersion s + 1\<rparr>)"

definition Get :: "world \<Rightarrow> (api_error + deployment) \<times> world" where
  "Get w =
     (let ev = getEvents w (gets w);
          s = interfere (concurrent ev) (store w);
          w' = w\<lparr>store := s, gets := gets w + 1\<rparr>
      in case fault ev of
           Some e \<Rightarrow> (Inl e, w')
         | None \<Rightarrow> (Inr s, w'))"

definition Update :: "deployment \<Rightarrow> world \<Rightarrow> api_error option \<times> world" where
  "Update d w =
     (let ev = updateEvents w (updates w);
          s = interfere (concurrent ev) (store w);
          w' = w\<lparr>store := s, updates := updates w + 1\<rparr>
      in case fault ev of
           Some e \<Rightarrow> (Some e, w')
         | None \<Rightarrow>
             if resourceVersion d \<noteq> resourceVersion s
             then (Some (ApiError Conflict ''the object has been modified''), w')
             else (None, w'\<lparr>store := d\<lparr>resourceVersion := resourceVersion s + 1\<rparr>,
                            written := written w' @ [d\<lparr>resourceVersion := resourceVersion s + 1\<rparr>]\<rparr>))"

text \<open>Modelled from the spec: \<^verbatim>\<open>ListInstances\<close> (section 6), the pods matching the label.\<close>

definition List :: "world \<Rightarrow> (api_error + pod list) \<times> world" where
  "List w =
     (let a = listAnswers w (lists w)
      in (answer a, w\<lparr>clock := clock w + delay a, lists := lists w + 1\<rparr>))"

section \<open>podContainersRunning\<close>

text \<open>The inner loop of lines 118-122: leave with \<open>False\<close> at the first status not ready.\<close>

fun statusesReady :: "container_status list \<Rightarrow> bool" where
  "statusesReady [] = True"
| "statusesReady (status # rest) = (if \<not> ready status then False else statusesReady rest)"

text \<open>The outer loop of lines 117-123.\<close>

fun itemsReady :: "pod list \<Rightarrow> bool" where
  "itemsReady [] = True"
| "itemsReady (item # rest) =
     (if \<not> statusesReady (containerStatuses item) then False else itemsReady rest)"

definition podContainersRunning :: "world \<Rightarrow> (bool \<times> api_error option) \<times> world" where
  "podContainersRunning w =
     (case List w of
        (Inl err, w') \<Rightarrow> ((False, Some err), w')
      | (Inr pods, w') \<Rightarrow> ((itemsReady pods, None), w'))"

section \<open>waitForPodContainersRunning\<close>

definition second :: nat where
  "second = 1000000000"

definition deployRunningThreshold :: nat where
  "deployRunningThreshold = second * 10"

definition deployRunningCheckInterval :: nat where
  "deployRunningCheckInterval = second * 2"

definition timerWait :: "nat \<Rightarrow> world \<Rightarrow> world" where
  "timerWait d w = w\<lparr>clock := clock w + d\<rparr>"

definition println :: "string \<Rightarrow> world \<Rightarrow> world" where
  "println s w = w\<lparr>stdout := stdout w @ [s]\<rparr>"

text \<open>Lines 90-93: wait for the timer, then ask for the pods.\<close>

definition pollStep :: "world \<Rightarrow> (bool \<times> api_error option) \<times> world" where
  "pollStep w = podContainersRunning (timerWait deployRunningCheckInterval w)"

text \<open>Lines 98-100.\<close>

definition logPollError :: "api_error option \<Rightarrow> world \<Rightarrow> world" where
  "logPollError err w =
     (case err of
        None \<Rightarrow> w
      | Some e \<Rightarrow> println (''Encountered an error checking for running pods: '' @ message e) w)"

text \<open>
  The loop of lines 89-105. \<open>end_t\<close> is the local \<^verbatim>\<open>end\<close>; the result is the returned
  error, \<open>None\<close> for \<^verbatim>\<open>nil\<close>.
\<close>

function waitLoop :: "nat \<Rightarrow> world \<Rightarrow> string option \<times> world" where
  "waitLoop end_t w =
     (case pollStep w of
        ((running, err), w1) \<Rightarrow>
          if running then (None, w1)
          else
            let w2 = logPollError err w1
            in if end_t < clock w2
               then (Some ''Failed to get all running containers'', w2)
               else waitLoop end_t w2)"
  by pat_completeness auto
termination
  by (relation "measure (\<lambda>(end_t, w). Suc end_t - clock w)")
     (auto simp: pollStep_def podContainersRunning_def List_def timerWait_def logPollError_def
        println_def deployRunningCheckInterval_def second_def Let_def
        split: sum.splits option.splits)

definition waitForPodContainersRunning :: "world \<Rightarrow> string option \<times> world" where
  "waitForPodContainersRunning w = waitLoop (clock w + deployRunningThreshold) w"

section \<open>deploy\<close>

text \<open>
  A Go panic ends the program; it is the \<open>Panicked\<close> result, with the place it was raised:
  line 38, line 43, lines 49 and 62, line 76, the runtime's index check of
  \<^verbatim>\<open>Containers[0]\<close>, and line 67.
\<close>

datatype mutate_error = StoreError api_error | ConflictExhausted

datatype panic =
    PanicGet api_error
  | PanicNotAllRunning "api_error option"
  | PanicDeploy mutate_error
  | PanicGetLatest api_error
  | PanicIndexOutOfRange
  | PanicWait string

datatype 'a exec = Done 'a | Panicked panic

text \<open>
  The closure of lines 46-48, for any image: \<^verbatim>\<open>Containers[0].Image = img\<close>. Indexing an empty
  slice panics.
\<close>

definition setImage :: "string \<Rightarrow> deployment \<Rightarrow> deployment option" where
  "setImage img d =
     (case containers d of
        [] \<Rightarrow> None
      | c # cs \<Rightarrow> Some (d\<lparr>containers := c\<lparr>image := img\<rparr> # cs\<rparr>))"

text \<open>The closure of lines 59-61: the image is read from \<^verbatim>\<open>originalDeployment\<close>.\<close>

definition restoreImage :: "deployment \<Rightarrow> deployment \<Rightarrow> deployment option" where
  "restoreImage originalDeployment d =
     (case containers originalDeployment of
        [] \<Rightarrow> None
      | oc # _ \<Rightarrow> setImage (image oc) d)"

text \<open>The closure of lines 73-83, one read-transform-write cycle.\<close>

definition attempt ::
  "(deployment \<Rightarrow> deployment option) \<Rightarrow> world \<Rightarrow> api_error option exec \<times> world" where
  "attempt op w =
     (case Get w of
        (Inl err, w1) \<Rightarrow> (Panicked (PanicGetLatest err), w1)
      | (Inr result, w1) \<Rightarrow>
          (case op result of
             None \<Rightarrow> (Panicked PanicIndexOutOfRange, w1)
           | Some result' \<Rightarrow>
               (case Update result' w1 of (updateErr, w2) \<Rightarrow> (Done updateErr, w2))))"

text \<open>
  Modelled from the spec: \<^verbatim>\<open>retry.RetryOnConflict\<close> and \<^verbatim>\<open>retry.DefaultRetry\<close> belong to
  the client library, outside the repository. Section 4.1: a write rejected as a version
  conflict is retried with the full cycle, up to a bounded number of attempts (here
  \<open>steps\<close>, the missing constant); exceeding the bound surfaces \<open>ConflictExhausted\<close>; any
  other failure is not retried. The library's pauses between attempts are left out.
\<close>

fun RetryOnConflict ::
  "nat \<Rightarrow> (world \<Rightarrow> api_error option exec \<times> world) \<Rightarrow> world
     \<Rightarrow> mutate_error option exec \<times> world" where
  "RetryOnConflict 0 fn w = (Done (Some ConflictExhausted), w)"
| "RetryOnConflict (Suc n) fn w =
     (case fn w of
        (Panicked p, w') \<Rightarrow> (Panicked p, w')
      | (Done None, w') \<Rightarrow> (Done None, w')
      | (Done (Some err), w') \<Rightarrow>
          if IsConflict err then RetryOnConflict n fn w'
          else (Done (Some (StoreError err)), w'))"

definition deploy ::
  "nat \<Rightarrow> (deployment \<Rightarrow> deployment option) \<Rightarrow> world \<Rightarrow> mutate_error option exec \<times> world" where
  "deploy steps op w = RetryOnConflict steps (attempt op) w"

text \<open>
  The world after the first \<open>i\<close> cycles of the closure, each started where the one before
  ended: where the retry stands when all of them were rejected.
\<close>

definition afterAttempts :: "(deployment \<Rightarrow> deployment option) \<Rightarrow> nat \<Rightarrow> world \<Rightarrow> world" where
  "afterAttempts op i w = ((\<lambda>w. snd (attempt op w)) ^^ i) w"

section \<open>main\<close>

text \<open>Lines 58-69, with \<^verbatim>\<open>originalDeployment\<close> from line 36.\<close>

definition rollBack :: "nat \<Rightarrow> deployment \<Rightarrow> world \<Rightarrow> unit exec \<times> world" where
  "rollBack steps originalDeployment w =
     (case deploy steps (restoreImage originalDeployment) w of
        (Panicked p, w1) \<Rightarrow> (Panicked p, w1)
      | (Done (Some err), w1) \<Rightarrow> (Panicked (PanicDeploy err), w1)
      | (Done None, w1) \<Rightarrow>
          (case waitForPodContainersRunning w1 of
             (Some err, w2) \<Rightarrow> (Panicked (PanicWait err), w2)
           | (None, w2) \<Rightarrow> (Done (), println ''Rolled back successfully!'' w2)))"

text \<open>
  Lines 35-69. The connection set-up of lines 23-33 is taken as done. \<open>steps\<close> is the
  attempt bound of the retry.
\<close>

definition main :: "nat \<Rightarrow> world \<Rightarrow> unit exec \<times> world" where
  "main steps w =
     (case Get w of
        (Inl err, w1) \<Rightarrow> (Panicked (PanicGet err), w1)
      | (Inr originalDeployment, w1) \<Rightarrow>
          (case podContainersRunning w1 of
             ((allRunning, err), w2) \<Rightarrow>
               if \<not> (allRunning \<and> err = None) then (Panicked (PanicNotAllRunning err), w2)
               else
                 (case deploy steps (setImage ''redis:doesntexist'') w2 of
                    (Panicked p, w3) \<Rightarrow> (Panicked p, w3)
                  | (Done (Some err), w3) \<Rightarrow> (Panicked (PanicDeploy err), w3)
                  | (Done None, w3) \<Rightarrow>
                      (case waitForPodContainersRunning w3 of
                         (err, w4) \<Rightarrow>
                           rollBack steps originalDeployment
                             (if err = None then println ''Deploy successful'' w4 else w4)))))"

section \<open>Scenarios\<close>

text \<open>The deployment of \<^verbatim>\<open>deployments/redis.yml\<close>, as the server holds it.\<close>

definition redisDeployment :: deployment where
  "redisDeployment =
     \<lparr>dname = ''redis'', resourceVersion = 1, replicas = 2,
      containers = [\<lparr>cname = ''redis'', image = ''redis:3''\<rparr>]\<rparr>"

definition readyPod :: "string \<Rightarrow> pod" where
  "readyPod n = \<lparr>pname = n, containerStatuses = [\<lparr>sname = ''redis'', ready = True\<rparr>]\<rparr>"

definition unreadyPod :: "string \<Rightarrow> pod" where
  "unreadyPod n = \<lparr>pname = n, containerStatuses = [\<lparr>sname = ''redis'', ready = False\<rparr>]\<rparr>"

definition quiet :: api_event where
  "quiet = ApiEvent None None"

text \<open>A cluster at time 0 holding the redis deployment, with the given behaviour.\<close>

definition cluster ::
  "(nat \<Rightarrow> api_event) \<Rightarrow> (nat \<Rightarrow> api_event) \<Rightarrow> (nat \<Rightarrow> list_answer) \<Rightarrow> world" where
  "cluster ge ue la =
     \<lparr>store = redisDeployment, clock = 0, getEvents = ge, updateEvents = ue, listAnswers = la,
      gets = 0, updates = 0, lists = 0, written = [], stdout = []\<rparr>"

text \<open>Both pods ready at every poll, no failure, no other writer.\<close>

definition healthyWorld :: world where
  "healthyWorld =
     cluster (\<lambda>_. quiet) (\<lambda>_. quiet)
       (\<lambda>_. ListAnswer 0 (Inr [readyPod ''redis-1'', readyPod ''redis-2'']))"

text \<open>No pod is listed, at any poll.\<close>

definition emptyWorld :: world where
  "emptyWorld = cluster (\<lambda>_. quiet) (\<lambda>_. quiet) (\<lambda>_. ListAnswer 0 (Inr []))"

text \<open>Every \<^verbatim>\<open>Get\<close> fails with \<^verbatim>\<open>NotFound\<close>.\<close>

definition readFailWorld :: world where
  "readFailWorld =
     cluster (\<lambda>_. ApiEvent None (Some (ApiError NotFound ''deployments redis not found'')))
       (\<lambda>_. quiet) (\<lambda>_. ListAnswer 0 (Inr [readyPod ''redis-1'', readyPod ''redis-2'']))"

text \<open>
  Another writer scales the deployment between the first read and write; every later
  \<^verbatim>\<open>Update\<close> fails with \<^verbatim>\<open>Forbidden\<close>.
\<close>

definition writeFailWorld :: world where
  "writeFailWorld =
     cluster (\<lambda>_. quiet)
       (\<lambda>i. if i = 0 then ApiEvent (Some (redisDeployment\<lparr>replicas := 3\<rparr>)) None
            else ApiEvent None (Some (ApiError Forbidden ''deployments redis is forbidden'')))
       (\<lambda>_. ListAnswer 0 (Inr [readyPod ''redis-1'', readyPod ''redis-2'']))"

text \<open>
  Another writer scales the deployment between the read and the write of each of the first
  \<open>k\<close> cycles.
\<close>

definition conflictWorld :: "nat \<Rightarrow> world" where
  "conflictWorld k =
     cluster (\<lambda>_. quiet)
       (\<lambda>i. if i < k then ApiEvent (Some (redisDeployment\<lparr>replicas := 3 + i\<rparr>)) None else quiet)
       (\<lambda>_. ListAnswer 0 (Inr [readyPod ''redis-1'', readyPod ''redis-2'']))"


text \<open>One pod of two is not ready, at every poll.\<close>

definition unhealthyWorld :: world where
  "unhealthyWorld =
     cluster (\<lambda>_. quiet) (\<lambda>_. quiet)
       (\<lambda>_. ListAnswer 0 (Inr [readyPod ''redis-1'', unreadyPod ''redis-2'']))"


text \<open>
  Ready at the check before the update, not ready at the six polls after it, ready again
  afterwards.
\<close>

definition stuckWorld :: world where
  "stuckWorld =
     cluster (\<lambda>_. quiet) (\<lambda>_. quiet)
       (\<lambda>i. if 1 \<le> i \<and> i < 7
            then ListAnswer 0 (Inr [unreadyPod ''redis-1'', unreadyPod ''redis-2''])
            else ListAnswer 0 (Inr [readyPod ''redis-1'', readyPod ''redis-2'']))"

section \<open>Auxiliary facts\<close>

subsection \<open>The polling loop\<close>

declare waitLoop.simps [simp del]

lemma statusesReady_iff: "statusesReady ss = (\<forall>s\<in>set ss. ready s)"
  by (induction ss) auto

lemma itemsReady_iff:
  "itemsReady pods = (\<forall>p\<in>set pods. \<forall>s\<in>set (containerStatuses p). ready s)"
  by (induction pods) (auto simp: statusesReady_iff)

lemma pollStep_eq:
  "pollStep w =
     ((case answer (listAnswers w (lists w)) of
         Inl err \<Rightarrow> (False, Some err)
       | Inr pods \<Rightarrow> (itemsReady pods, None)),
      w\<lparr>clock := clock w + deployRunningCheckInterval + delay (listAnswers w (lists w)),
        lists := Suc (lists w)\<rparr>)"
  by (simp add: pollStep_def podContainersRunning_def List_def timerWait_def Let_def
      split: sum.splits)

lemma waitLoop_unfold:
  "waitLoop end_t w =
     (if fst (fst (pollStep w)) then (None, snd (pollStep w))
      else if end_t < clock (logPollError (snd (fst (pollStep w))) (snd (pollStep w)))
        then (Some ''Failed to get all running containers'',
              logPollError (snd (fst (pollStep w))) (snd (pollStep w)))
        else waitLoop end_t (logPollError (snd (fst (pollStep w))) (snd (pollStep w))))"
  by (subst waitLoop.simps) (simp add: Let_def split: prod.splits)

lemma logPollError_fields [simp]:
  "clock (logPollError err w) = clock w"
  "lists (logPollError err w) = lists w"
  "listAnswers (logPollError err w) = listAnswers w"
  "store (logPollError err w) = store w"
  "gets (logPollError err w) = gets w"
  "updates (logPollError err w) = updates w"
  "written (logPollError err w) = written w"
  "getEvents (logPollError err w) = getEvents w"
  "updateEvents (logPollError err w) = updateEvents w"
  by (simp_all add: logPollError_def println_def split: option.splits)

lemma pollStep_fields [simp]:
  "clock (snd (pollStep w)) = clock w + deployRunningCheckInterval + delay (listAnswers w (lists w))"
  "lists (snd (pollStep w)) = Suc (lists w)"
  "listAnswers (snd (pollStep w)) = listAnswers w"
  "store (snd (pollStep w)) = store w"
  "gets (snd (pollStep w)) = gets w"
  "updates (snd (pollStep w)) = updates w"
  "written (snd (pollStep w)) = written w"
  "getEvents (snd (pollStep w)) = getEvents w"
  "updateEvents (snd (pollStep w)) = updateEvents w"
  "stdout (snd (pollStep w)) = stdout w"
  by (simp_all add: pollStep_eq)

lemma waitLoop_induct [case_names step]:
  assumes "\<And>end_t w.
     (\<not> fst (fst (pollStep w)) \<Longrightarrow>
      \<not> end_t < clock (logPollError (snd (fst (pollStep w))) (snd (pollStep w))) \<Longrightarrow>
      P end_t (logPollError (snd (fst (pollStep w))) (snd (pollStep w)))) \<Longrightarrow> P end_t w"
  shows "P end_t w"
proof (induction end_t w rule: waitLoop.induct)
  case (1 end_t w)
  show ?case
    by (rule assms) (rule "1.IH" [OF prod.collapse prod.collapse _ refl])
qed

lemma waitLoop_frame:
  "listAnswers (snd (waitLoop end_t w)) = listAnswers w \<and>
   store (snd (waitLoop end_t w)) = store w \<and>
   gets (snd (waitLoop end_t w)) = gets w \<and>
   updates (snd (waitLoop end_t w)) = updates w \<and>
   written (snd (waitLoop end_t w)) = written w \<and>
   getEvents (snd (waitLoop end_t w)) = getEvents w \<and>
   updateEvents (snd (waitLoop end_t w)) = updateEvents w"
proof (induction end_t w rule: waitLoop_induct)
  case (step end_t w)
  then show ?case
    by (subst (1 2 3 4 5 6 7) waitLoop_unfold) simp
qed










subsection \<open>One read-transform-write cycle\<close>

lemma Get_fields [simp]:
  "gets (snd (Get w)) = Suc (gets w)"
  "updates (snd (Get w)) = updates w"
  "written (snd (Get w)) = written w"
  "store (snd (Get w)) = interfere (concurrent (getEvents w (gets w))) (store w)"
  by (simp_all add: Get_def Let_def split: option.splits)

lemma Update_fields [simp]:
  "gets (snd (Update d w)) = gets w"
  "updates (snd (Update d w)) = Suc (updates w)"
  by (simp_all add: Update_def Let_def split: option.splits)

lemma Update_failed:
  "fst (Update d w) = Some e \<Longrightarrow> written (snd (Update d w)) = written w"
  by (simp add: Update_def Let_def split: option.splits if_splits)

lemma Update_ok:
  "fst (Update d w) = None \<Longrightarrow>
     store (snd (Update d w)) = d\<lparr>resourceVersion := Suc (resourceVersion d)\<rparr> \<and>
     written (snd (Update d w)) = written w @ [d\<lparr>resourceVersion := Suc (resourceVersion d)\<rparr>]"
  by (auto simp: Update_def Let_def split: option.splits if_splits)

lemma attempt_unfold:
  "attempt op w =
     (case fault (getEvents w (gets w)) of
        Some e \<Rightarrow> (Panicked (PanicGetLatest e), snd (Get w))
      | None \<Rightarrow>
          (case op (interfere (concurrent (getEvents w (gets w))) (store w)) of
             None \<Rightarrow> (Panicked PanicIndexOutOfRange, snd (Get w))
           | Some d \<Rightarrow> (Done (fst (Update d (snd (Get w)))), snd (Update d (snd (Get w))))))"
  by (simp add: attempt_def Get_def Let_def split: option.splits prod.splits)

lemma attempt_gets [simp]: "gets (snd (attempt op w)) = Suc (gets w)"
  by (simp add: attempt_unfold split: option.splits)

lemma attempt_read_failure:
  "fault (getEvents w (gets w)) = Some e \<Longrightarrow>
     attempt op w = (Panicked (PanicGetLatest e), snd (Get w))"
  by (simp add: attempt_unfold)

lemma attempt_ok:
  assumes "fst (attempt op w) = Done None"
  shows "\<exists>d. op (interfere (concurrent (getEvents w (gets w))) (store w)) = Some d \<and>
     fault (getEvents w (gets w)) = None \<and>
     store (snd (attempt op w)) = d\<lparr>resourceVersion := Suc (resourceVersion d)\<rparr> \<and>
     written (snd (attempt op w)) = written w @ [d\<lparr>resourceVersion := Suc (resourceVersion d)\<rparr>]"
  using assms by (auto simp: attempt_unfold Update_ok split: option.splits)

lemma attempt_not_ok:
  "fst (attempt op w) \<noteq> Done None \<Longrightarrow> written (snd (attempt op w)) = written w"
  by (cases "fst (Update (the (op (interfere (concurrent (getEvents w (gets w))) (store w)))) (snd (Get w)))")
     (auto simp: attempt_unfold Update_failed split: option.splits)

lemma retry_after_conflicts:
  assumes "\<forall>i<k. \<exists>e. fst (fn (((\<lambda>w. snd (fn w)) ^^ i) w)) = Done (Some e) \<and> IsConflict e"
    and "k \<le> n"
  shows "RetryOnConflict n fn w = RetryOnConflict (n - k) fn (((\<lambda>w. snd (fn w)) ^^ k) w)"
  using assms
proof (induction k arbitrary: n w)
  case 0
  then show ?case by simp
next
  case (Suc k)
  from Suc.prems(2) obtain m where n: "n = Suc m" and km: "k \<le> m"
    by (cases n) auto
  from Suc.prems(1) obtain e where e: "fst (fn w) = Done (Some e)" "IsConflict e"
    by fastforce
  have "\<forall>i<k. \<exists>e. fst (fn (((\<lambda>w. snd (fn w)) ^^ i) (snd (fn w)))) = Done (Some e) \<and> IsConflict e"
  proof (intro allI impI)
    fix i assume "i < k"
    then have "Suc i < Suc k" by simp
    with Suc.prems(1) show "\<exists>e. fst (fn (((\<lambda>w. snd (fn w)) ^^ i) (snd (fn w)))) = Done (Some e) \<and> IsConflict e"
      by (metis funpow_Suc_right comp_apply)
  qed
  from Suc.IH [OF this km]
  have "RetryOnConflict m fn (snd (fn w)) =
      RetryOnConflict (m - k) fn (((\<lambda>w. snd (fn w)) ^^ k) (snd (fn w)))" .
  moreover have "RetryOnConflict n fn w = RetryOnConflict m fn (snd (fn w))"
    using e by (cases "fn w") (simp add: n)
  moreover have "((\<lambda>w. snd (fn w)) ^^ k) (snd (fn w)) = ((\<lambda>w. snd (fn w)) ^^ Suc k) w"
    using funpow_swap1 [of "\<lambda>w. snd (fn w)" k w] by simp
  ultimately show ?case
    by (simp add: n del: RetryOnConflict.simps funpow.simps)
qed

subsection \<open>Unfolding without binders, for evaluation\<close>

lemmas world_defs = cluster_def redisDeployment_def readyPod_def unreadyPod_def quiet_def
lemmas eval_defs = waitForPodContainersRunning_def waitLoop_unfold pollStep_eq logPollError_def println_def
  deployRunningThreshold_def deployRunningCheckInterval_def second_def

lemma RetryOnConflict_unfold:
  "RetryOnConflict (Suc n) fn w =
     (case fst (fn w) of
        Panicked p \<Rightarrow> (Panicked p, snd (fn w))
      | Done r \<Rightarrow>
          (case r of
             None \<Rightarrow> (Done None, snd (fn w))
           | Some err \<Rightarrow>
               if IsConflict err then RetryOnConflict n fn (snd (fn w))
               else (Done (Some (StoreError err)), snd (fn w))))"
  by (simp split: prod.splits exec.splits option.splits)

lemma RetryOnConflict_numeral:
  "RetryOnConflict (numeral k) fn w =
     (case fst (fn w) of
        Panicked p \<Rightarrow> (Panicked p, snd (fn w))
      | Done r \<Rightarrow>
          (case r of
             None \<Rightarrow> (Done None, snd (fn w))
           | Some err \<Rightarrow>
               if IsConflict err then RetryOnConflict (pred_numeral k) fn (snd (fn w))
               else (Done (Some (StoreError err)), snd (fn w))))"
  by (simp only: numeral_eq_Suc RetryOnConflict_unfold)

lemma podContainersRunning_eq:
  "podContainersRunning w =
     ((case answer (listAnswers w (lists w)) of
         Inl err \<Rightarrow> (False, Some err)
       | Inr pods \<Rightarrow> (itemsReady pods, None)),
      w\<lparr>clock := clock w + delay (listAnswers w (lists w)), lists := Suc (lists w)\<rparr>)"
  by (simp add: podContainersRunning_def List_def Let_def split: sum.splits)

lemma rollBack_unfold:
  "rollBack steps orig w =
     (case fst (deploy steps (restoreImage orig) w) of
        Panicked p \<Rightarrow> (Panicked p, snd (deploy steps (restoreImage orig) w))
      | Done r \<Rightarrow>
          (case r of
             Some err \<Rightarrow> (Panicked (PanicDeploy err), snd (deploy steps (restoreImage orig) w))
           | None \<Rightarrow>
               (case fst (waitForPodContainersRunning (snd (deploy steps (restoreImage orig) w))) of
                  Some err \<Rightarrow>
                    (Panicked (PanicWait err),
                     snd (waitForPodContainersRunning (snd (deploy steps (restoreImage orig) w))))
                | None \<Rightarrow>
                    (Done (),
                     println ''Rolled back successfully!''
                       (snd (waitForPodContainersRunning
                          (snd (deploy steps (restoreImage orig) w))))))))"
  by (cases "deploy steps (restoreImage orig) w";
      cases "waitForPodContainersRunning (snd (deploy steps (restoreImage orig) w))")
     (auto simp: rollBack_def split: exec.splits option.splits)

lemma main_unfold:
  "main steps w =
     (case fst (Get w) of
        Inl err \<Rightarrow> (Panicked (PanicGet err), snd (Get w))
      | Inr orig \<Rightarrow>
          if \<not> (fst (fst (podContainersRunning (snd (Get w)))) \<and>
                 snd (fst (podContainersRunning (snd (Get w)))) = None)
          then (Panicked (PanicNotAllRunning (snd (fst (podContainersRunning (snd (Get w)))))),
                snd (podContainersRunning (snd (Get w))))
          else
            (case fst (deploy steps (setImage ''redis:doesntexist'')
                        (snd (podContainersRunning (snd (Get w))))) of
               Panicked p \<Rightarrow>
                 (Panicked p,
                  snd (deploy steps (setImage ''redis:doesntexist'')
                         (snd (podContainersRunning (snd (Get w))))))
             | Done r \<Rightarrow>
                 (case r of
                    Some err \<Rightarrow>
                      (Panicked (PanicDeploy err),
                       snd (deploy steps (setImage ''redis:doesntexist'')
                              (snd (podContainersRunning (snd (Get w))))))
                  | None \<Rightarrow>
                      rollBack steps orig
                        (if fst (waitForPodContainersRunning
                                   (snd (deploy steps (setImage ''redis:doesntexist'')
                                           (snd (podContainersRunning (snd (Get w))))))) = None
                         then println ''Deploy successful''
                                (snd (waitForPodContainersRunning
                                   (snd (deploy steps (setImage ''redis:doesntexist'')
                                           (snd (podContainersRunning (snd (Get w))))))))
                         else snd (waitForPodContainersRunning
                                   (snd (deploy steps (setImage ''redis:doesntexist'')
                                           (snd (podContainersRunning (snd (Get w)))))))))))"
  by (cases "Get w"; cases "podContainersRunning (snd (Get w))";
      cases "deploy steps (setImage ''redis:doesntexist'') (snd (podContainersRunning (snd (Get w))))";
      cases "waitForPodContainersRunning (snd (deploy steps (setImage ''redis:doesntexist'')
               (snd (podContainersRunning (snd (Get w))))))")
     (auto simp: main_def split: sum.splits exec.splits option.splits)

lemmas run_defs = main_unfold rollBack_unfold deploy_def RetryOnConflict_unfold RetryOnConflict_numeral
  attempt_unfold Get_def Update_def interfere_def podContainersRunning_eq setImage_def restoreImage_def
  IsConflict_def Let_def

subsection \<open>Outcomes of the retry\<close>

lemma attempt_panic_kind:
  "fst (attempt op w) = Panicked p \<Longrightarrow> p = PanicIndexOutOfRange \<or> (\<exists>e. p = PanicGetLatest e)"
  by (auto simp: attempt_unfold split: option.splits)

lemma retry_panic_kind:
  "fst (RetryOnConflict n (attempt op) w) = Panicked p \<Longrightarrow>
     p = PanicIndexOutOfRange \<or> (\<exists>e. p = PanicGetLatest e)"
proof (induction n arbitrary: w)
  case 0
  then show ?case by simp
next
  case (Suc n)
  then show ?case
    by (auto simp: RetryOnConflict_unfold simp del: RetryOnConflict.simps
        dest: attempt_panic_kind split: exec.splits option.splits if_splits)
qed

lemma retry_ok_store:
  "fst (RetryOnConflict n (attempt op) w) = Done None \<Longrightarrow>
     \<exists>d0 d. op d0 = Some d \<and>
       store (snd (RetryOnConflict n (attempt op) w)) =
         d\<lparr>resourceVersion := Suc (resourceVersion d)\<rparr>"
proof (induction n arbitrary: w)
  case 0
  then show ?case by simp
next
  case (Suc n)
  show ?case
  proof (cases "fst (attempt op w) = Done None")
    case True
    from attempt_ok [OF True] True show ?thesis
      by (auto simp: RetryOnConflict_unfold simp del: RetryOnConflict.simps)
  next
    case False
    with Suc.prems have "fst (RetryOnConflict n (attempt op) (snd (attempt op w))) = Done None"
      "RetryOnConflict (Suc n) (attempt op) w = RetryOnConflict n (attempt op) (snd (attempt op w))"
      by (auto simp: RetryOnConflict_unfold simp del: RetryOnConflict.simps
          split: exec.splits option.splits if_splits)
    with Suc.IH show ?thesis by simp
  qed
qed

lemma restoreImage_Some:
  "restoreImage orig d0 = Some d \<Longrightarrow>
     \<exists>oc ocs c cs. containers orig = oc # ocs \<and> containers d = c # cs \<and> image c = image oc"
  by (auto simp: restoreImage_def setImage_def split: list.splits)

lemma waitFor_frame:
  "store (snd (waitForPodContainersRunning w)) = store w \<and>
   gets (snd (waitForPodContainersRunning w)) = gets w \<and>
   updates (snd (waitForPodContainersRunning w)) = updates w \<and>
   written (snd (waitForPodContainersRunning w)) = written w"
  by (simp add: waitForPodContainersRunning_def waitLoop_frame)

lemma println_fields [simp]:
  "store (println s w) = store w"
  "gets (println s w) = gets w"
  "updates (println s w) = updates w"
  "written (println s w) = written w"
  by (simp_all add: println_def)

lemma rollBack_restores:
  assumes "fst (rollBack steps orig w) = Done () \<or>
           (\<exists>e. fst (rollBack steps orig w) = Panicked (PanicWait e))"
  shows "\<exists>oc ocs c cs. containers orig = oc # ocs \<and>
           containers (store (snd (rollBack steps orig w))) = c # cs \<and> image c = image oc"
proof -
  have ok: "fst (deploy steps (restoreImage orig) w) = Done None"
  proof (cases "fst (deploy steps (restoreImage orig) w)")
    case (Done r)
    with assms show ?thesis
      by (cases r) (auto simp: rollBack_unfold)
  next
    case (Panicked p)
    with retry_panic_kind [of steps "restoreImage orig" w p] assms show ?thesis
      by (auto simp: rollBack_unfold deploy_def)
  qed
  from retry_ok_store [of steps "restoreImage orig" w] ok
  obtain d0 d where d: "restoreImage orig d0 = Some d"
    "store (snd (deploy steps (restoreImage orig) w)) = d\<lparr>resourceVersion := Suc (resourceVersion d)\<rparr>"
    by (auto simp: deploy_def)
  have "store (snd (rollBack steps orig w)) = store (snd (deploy steps (restoreImage orig) w))"
    using ok by (simp add: rollBack_unfold waitFor_frame split: option.splits)
  with d restoreImage_Some [OF d(1)] show ?thesis by auto
qed

lemma afterAttempts_0 [simp]: "afterAttempts op 0 w = w"
  by (simp add: afterAttempts_def)

lemma afterAttempts_Suc: "afterAttempts op (Suc i) w = snd (attempt op (afterAttempts op i w))"
  by (simp add: afterAttempts_def)

lemma afterAttempts_gets: "gets (afterAttempts op i w) = gets w + i"
  by (induction i) (simp_all add: afterAttempts_Suc)

lemma afterAttempts_written:
  "\<forall>j<i. fst (attempt op (afterAttempts op j w)) \<noteq> Done None \<Longrightarrow>
     written (afterAttempts op i w) = written w"
  by (induction i) (simp_all add: afterAttempts_Suc attempt_not_ok)

lemma deploy_after_conflicts:
  assumes "\<forall>i<k. \<exists>e. fst (attempt op (afterAttempts op i w)) = Done (Some e) \<and> IsConflict e"
    and "k \<le> n"
  shows "deploy n op w = RetryOnConflict (n - k) (attempt op) (afterAttempts op k w)"
  using retry_after_conflicts [of k "attempt op" w n] assms
  by (simp add: deploy_def afterAttempts_def)

lemma conflicts_not_ok:
  assumes "\<forall>i<k. \<exists>e. fst (attempt op (afterAttempts op i w)) = Done (Some e) \<and> IsConflict e"
  shows "\<forall>j<k. fst (attempt op (afterAttempts op j w)) \<noteq> Done None"
  using assms by fastforce

lemmas attempt_eval = afterAttempts_Suc attempt_unfold Get_def Update_def interfere_def setImage_def
  IsConflict_def Let_def

subsection \<open>The two transforms\<close>

lemma setImage_None: "(setImage img d = None) = (containers d = [])"
  by (simp add: setImage_def split: list.splits)

lemma setImage_Some:
  "setImage img d = Some d' \<Longrightarrow>
     \<exists>c cs. containers d = c # cs \<and> d' = d\<lparr>containers := c\<lparr>image := img\<rparr> # cs\<rparr>"
  by (simp add: setImage_def split: list.splits)

lemma restoreImage_None:
  "(restoreImage orig d = None) = (containers orig = [] \<or> containers d = [])"
  by (simp add: restoreImage_def setImage_None split: list.splits)

lemma restoreImage_setImage:
  "restoreImage orig d = Some d' \<Longrightarrow>
     containers orig \<noteq> [] \<and> setImage (image (hd (containers orig))) d = Some d'"
  by (simp add: restoreImage_def split: list.splits)

lemma setImage_frame:
  assumes "setImage img d = Some d'"
  shows "dname d' = dname d \<and> resourceVersion d' = resourceVersion d \<and>
      replicas d' = replicas d \<and>
      length (containers d') = length (containers d) \<and>
      tl (containers d') = tl (containers d) \<and>
      cname (hd (containers d')) = cname (hd (containers d)) \<and>
      image (hd (containers d')) = img \<and>
      d' = d\<lparr>containers := (hd (containers d))\<lparr>image := image (hd (containers d'))\<rparr>
                              # tl (containers d)\<rparr>"
proof -
  from setImage_Some [OF assms] obtain c cs where
    "containers d = c # cs" "d' = d\<lparr>containers := c\<lparr>image := img\<rparr> # cs\<rparr>"
    by blast
  then show ?thesis by simp
qed

subsection \<open>A first poll that finds every pod ready\<close>

lemma wait_first_poll_ready:
  assumes "answer (listAnswers w (lists w)) = Inr pods"
    and "itemsReady pods"
  shows "waitForPodContainersRunning w =
           (None, w\<lparr>clock := clock w + deployRunningCheckInterval + delay (listAnswers w (lists w)),
                    lists := Suc (lists w)\<rparr>)"
  using assms
  by (simp add: waitForPodContainersRunning_def waitLoop_unfold [of _ w] pollStep_eq)

section \<open>The claims\<close>

text \<open>
  C1. When the wait after the new image succeeds, the rollout should end with success
  and leave the rollback transform unapplied. The program does not: in the cluster where both
  pods are ready at every poll, the first wait returns \<^verbatim>\<open>nil\<close>, line 55 prints
  \<^verbatim>\<open>Deploy successful\<close>, and control falls through to line 59. The run makes two updates,
  the second one writing \<^verbatim>\<open>redis:3\<close> back, and ends with
  \<^verbatim>\<open>Rolled back successfully!\<close>.
\<close>

theorem main_rolls_back_after_successful_deploy:
  "fst (waitForPodContainersRunning
          (snd (deploy 5 (setImage ''redis:doesntexist'')
                  (snd (podContainersRunning (snd (Get healthyWorld))))))) = None \<and>
   fst (main 5 healthyWorld) = Done () \<and>
   stdout (snd (main 5 healthyWorld)) = [''Deploy successful'', ''Rolled back successfully!''] \<and>
   updates (snd (main 5 healthyWorld)) = 2 \<and>
   map (\<lambda>d. image (hd (containers d))) (written (snd (main 5 healthyWorld))) =
     [''redis:doesntexist'', ''redis:3''] \<and>
   image (hd (containers (store (snd (main 5 healthyWorld))))) = ''redis:3''"
  by (simp add: healthyWorld_def world_defs run_defs eval_defs del: RetryOnConflict.simps)

text \<open>
  C2, as amended. \<open>podContainersRunning\<close> reports \<open>(true, nil)\<close> exactly when the list
  call succeeds and every container status of every listed pod is ready; its boolean is never
  true together with an error. Nothing asks for the list to be non-empty: when no pod is
  listed the check reports running, and the wait returns \<^verbatim>\<open>nil\<close> at its first poll.
\<close>

theorem podContainersRunning_converged_iff:
  "(fst (podContainersRunning w) = (True, None)) =
     (\<exists>pods. answer (listAnswers w (lists w)) = Inr pods \<and>
        (\<forall>item\<in>set pods. \<forall>status\<in>set (containerStatuses item). ready status)) \<and>
   fst (fst (podContainersRunning w)) = (fst (podContainersRunning w) = (True, None)) \<and>
   (answer (listAnswers w (lists w)) = Inr [] \<longrightarrow>
      fst (podContainersRunning w) = (True, None) \<and>
      fst (waitForPodContainersRunning w) = None)"
proof (intro conjI impI)
  show "(fst (podContainersRunning w) = (True, None)) =
     (\<exists>pods. answer (listAnswers w (lists w)) = Inr pods \<and>
        (\<forall>item\<in>set pods. \<forall>status\<in>set (containerStatuses item). ready status))"
    by (auto simp: podContainersRunning_eq itemsReady_iff split: sum.splits)
  show "fst (fst (podContainersRunning w)) = (fst (podContainersRunning w) = (True, None))"
    by (auto simp: podContainersRunning_eq split: sum.splits)
next
  assume e: "answer (listAnswers w (lists w)) = Inr []"
  then show "fst (podContainersRunning w) = (True, None)"
    by (simp add: podContainersRunning_eq)
  from wait_first_poll_ready [OF e] show "fst (waitForPodContainersRunning w) = None"
    by simp
qed

theorem podContainersRunning_converged_iff_witness:
  "answer (listAnswers healthyWorld (lists healthyWorld)) =
     Inr [readyPod ''redis-1'', readyPod ''redis-2''] \<and>
   map ready (concat (map containerStatuses [readyPod ''redis-1'', readyPod ''redis-2''])) =
     [True, True] \<and>
   fst (podContainersRunning healthyWorld) = (True, None) \<and>
   answer (listAnswers unhealthyWorld (lists unhealthyWorld)) =
     Inr [readyPod ''redis-1'', unreadyPod ''redis-2''] \<and>
   fst (podContainersRunning unhealthyWorld) \<noteq> (True, None) \<and>
   answer (listAnswers emptyWorld (lists emptyWorld)) = Inr [] \<and>
   fst (waitForPodContainersRunning emptyWorld) = None"
proof -
  have a: "answer (listAnswers healthyWorld (lists healthyWorld)) =
      Inr [readyPod ''redis-1'', readyPod ''redis-2'']"
    by (simp add: healthyWorld_def cluster_def)
  have r: "\<forall>item\<in>set [readyPod ''redis-1'', readyPod ''redis-2''].
      \<forall>status\<in>set (containerStatuses item). ready status"
    by (simp add: readyPod_def)
  from podContainersRunning_converged_iff [of healthyWorld] a r
  have h: "fst (podContainersRunning healthyWorld) = (True, None)"
    by blast
  have b: "answer (listAnswers unhealthyWorld (lists unhealthyWorld)) =
      Inr [readyPod ''redis-1'', unreadyPod ''redis-2'']"
    by (simp add: unhealthyWorld_def cluster_def)
  have n: "\<not> (\<forall>item\<in>set [readyPod ''redis-1'', unreadyPod ''redis-2''].
      \<forall>status\<in>set (containerStatuses item). ready status)"
    by (simp add: unreadyPod_def)
  from podContainersRunning_converged_iff [of unhealthyWorld] b n
  have u: "fst (podContainersRunning unhealthyWorld) \<noteq> (True, None)"
    by auto
  have e: "answer (listAnswers emptyWorld (lists emptyWorld)) = Inr []"
    by (simp add: emptyWorld_def cluster_def)
  from podContainersRunning_converged_iff [of emptyWorld] e
  have w: "fst (waitForPodContainersRunning emptyWorld) = None"
    by blast
  from a h b u e w show ?thesis
    by (simp add: readyPod_def)
qed

text \<open>
  The claim as written fails for the empty pod list: the check reports running, and
  the wait succeeds after one interval, well before the deadline.
\<close>

theorem empty_pod_list_reported_running:
  "answer (listAnswers emptyWorld (lists emptyWorld)) = Inr [] \<and>
   fst (podContainersRunning emptyWorld) = (True, None) \<and>
   fst (waitForPodContainersRunning emptyWorld) = None \<and>
   clock (snd (waitForPodContainersRunning emptyWorld)) < clock emptyWorld + deployRunningThreshold"
  by (simp add: emptyWorld_def world_defs podContainersRunning_eq eval_defs)

text \<open>
  C3, as amended. After any number \<open>k\<close> of rejected cycles within the bound: a write
  that fails with an error other than a version conflict is not retried and the error is
  returned to the caller as \<open>StoreError\<close>; a failing read is not retried either, but it is
  raised as the panic of line 76, not returned. In both cases cycle \<open>k\<close> is the last one
  (\<open>k + 1\<close> reads in all) and nothing has been written.
\<close>

theorem deploy_failure_not_retried:
  assumes "\<forall>i<k. \<exists>e. fst (attempt op (afterAttempts op i w)) = Done (Some e) \<and> IsConflict e"
    and "k < steps"
  shows "(\<forall>e. fst (attempt op (afterAttempts op k w)) = Done (Some e) \<and> \<not> IsConflict e \<longrightarrow>
            deploy steps op w = (Done (Some (StoreError e)), afterAttempts op (Suc k) w) \<and>
            written (afterAttempts op (Suc k) w) = written w) \<and>
         (\<forall>e. fault (getEvents (afterAttempts op k w) (gets (afterAttempts op k w))) = Some e \<longrightarrow>
            deploy steps op w = (Panicked (PanicGetLatest e), afterAttempts op (Suc k) w) \<and>
            updates (afterAttempts op (Suc k) w) = updates (afterAttempts op k w) \<and>
            written (afterAttempts op (Suc k) w) = written w) \<and>
         gets (afterAttempts op (Suc k) w) = gets w + Suc k"
proof -
  from assms(2) obtain m where m: "steps - k = Suc m"
    by (cases "steps - k") auto
  from assms(2) have "k \<le> steps" by simp
  note d = deploy_after_conflicts [OF assms(1) this]
  note wr = afterAttempts_written [OF conflicts_not_ok [OF assms(1)]]
  have wfail: "deploy steps op w = (Done (Some (StoreError e)), afterAttempts op (Suc k) w) \<and>
            written (afterAttempts op (Suc k) w) = written w"
    if "fst (attempt op (afterAttempts op k w)) = Done (Some e) \<and> \<not> IsConflict e" for e
    using that d wr attempt_not_ok [of op "afterAttempts op k w"]
    by (simp add: m RetryOnConflict_unfold afterAttempts_Suc del: RetryOnConflict.simps)
  have rfail: "deploy steps op w = (Panicked (PanicGetLatest e), afterAttempts op (Suc k) w) \<and>
            updates (afterAttempts op (Suc k) w) = updates (afterAttempts op k w) \<and>
            written (afterAttempts op (Suc k) w) = written w"
    if "fault (getEvents (afterAttempts op k w) (gets (afterAttempts op k w))) = Some e" for e
    using d wr attempt_read_failure [OF that, of op]
    by (simp add: m RetryOnConflict_unfold afterAttempts_Suc del: RetryOnConflict.simps)
  from wfail rfail afterAttempts_gets [of op "Suc k" w] show ?thesis by blast
qed

theorem deploy_failure_not_retried_witness:
  "fst (attempt (setImage ''redis:doesntexist'')
          (afterAttempts (setImage ''redis:doesntexist'') 0 writeFailWorld)) =
     Done (Some (ApiError Conflict ''the object has been modified'')) \<and>
   fst (attempt (setImage ''redis:doesntexist'')
          (afterAttempts (setImage ''redis:doesntexist'') (Suc 0) writeFailWorld)) =
     Done (Some (ApiError Forbidden ''deployments redis is forbidden'')) \<and>
   fst (deploy 5 (setImage ''redis:doesntexist'') writeFailWorld) =
     Done (Some (StoreError (ApiError Forbidden ''deployments redis is forbidden''))) \<and>
   gets (snd (deploy 5 (setImage ''redis:doesntexist'') writeFailWorld)) = 2 \<and>
   written (snd (deploy 5 (setImage ''redis:doesntexist'') writeFailWorld)) = [] \<and>
   fault (getEvents readFailWorld (gets readFailWorld)) =
     Some (ApiError NotFound ''deployments redis not found'') \<and>
   fst (deploy 5 (setImage ''redis:doesntexist'') readFailWorld) =
     Panicked (PanicGetLatest (ApiError NotFound ''deployments redis not found'')) \<and>
   gets (snd (deploy 5 (setImage ''redis:doesntexist'') readFailWorld)) = 1"
proof -
  let ?op = "setImage ''redis:doesntexist''"
  have c0: "fst (attempt ?op (afterAttempts ?op 0 writeFailWorld)) =
      Done (Some (ApiError Conflict ''the object has been modified''))"
    by (simp add: writeFailWorld_def world_defs attempt_eval)
  have c1: "fst (attempt ?op (afterAttempts ?op (Suc 0) writeFailWorld)) =
      Done (Some (ApiError Forbidden ''deployments redis is forbidden''))"
    by (simp add: writeFailWorld_def world_defs attempt_eval)
  have h: "\<forall>i<Suc 0. \<exists>e. fst (attempt ?op (afterAttempts ?op i writeFailWorld)) =
      Done (Some e) \<and> IsConflict e"
    using c0 by (simp add: IsConflict_def)
  have nc: "\<not> IsConflict (ApiError Forbidden ''deployments redis is forbidden'')"
    by (simp add: IsConflict_def)
  have w0: "written writeFailWorld = []" "gets writeFailWorld = 0"
    by (simp_all add: writeFailWorld_def cluster_def)
  from deploy_failure_not_retried [OF h, of 5] c1 nc
  have a: "deploy 5 ?op writeFailWorld =
      (Done (Some (StoreError (ApiError Forbidden ''deployments redis is forbidden''))),
       afterAttempts ?op (Suc (Suc 0)) writeFailWorld)"
    "written (afterAttempts ?op (Suc (Suc 0)) writeFailWorld) = written writeFailWorld"
    "gets (afterAttempts ?op (Suc (Suc 0)) writeFailWorld) = gets writeFailWorld + Suc (Suc 0)"
    by simp_all
  have f: "fault (getEvents (afterAttempts ?op 0 readFailWorld)
                    (gets (afterAttempts ?op 0 readFailWorld))) =
      Some (ApiError NotFound ''deployments redis not found'')"
    by (simp add: readFailWorld_def cluster_def)
  have g0: "gets readFailWorld = 0"
    by (simp add: readFailWorld_def cluster_def)
  have h0: "\<forall>i<0. \<exists>e. fst (attempt ?op (afterAttempts ?op i readFailWorld)) =
      Done (Some e) \<and> IsConflict e"
    by simp
  from deploy_failure_not_retried [OF h0, of 5] f
  have b: "deploy 5 ?op readFailWorld =
      (Panicked (PanicGetLatest (ApiError NotFound ''deployments redis not found'')),
       afterAttempts ?op (Suc 0) readFailWorld)"
    "gets (afterAttempts ?op (Suc 0) readFailWorld) = gets readFailWorld + Suc 0"
    by simp_all
  show ?thesis
    using c0 c1 f by (simp add: a b w0 g0)
qed

text \<open>
  The claim as written fails for a read failure: with \<^verbatim>\<open>Get\<close> answering
  \<^verbatim>\<open>NotFound\<close>, \<open>deploy\<close> panics and returns no error value.
\<close>

theorem deploy_read_failure_panics:
  "fault (getEvents readFailWorld (gets readFailWorld)) =
     Some (ApiError NotFound ''deployments redis not found'') \<and>
   \<not> IsConflict (ApiError NotFound ''deployments redis not found'') \<and>
   fst (deploy 5 (setImage ''redis:doesntexist'') readFailWorld) =
     Panicked (PanicGetLatest (ApiError NotFound ''deployments redis not found'')) \<and>
   fst (deploy 5 (setImage ''redis:doesntexist'') readFailWorld) \<noteq>
     Done (Some (StoreError (ApiError NotFound ''deployments redis not found'')))"
  by (simp add: readFailWorld_def world_defs run_defs del: RetryOnConflict.simps)

text \<open>
  C4. Let the first \<open>k\<close> read-transform-write cycles each end in a version conflict.
  If the attempt bound \<open>steps\<close> is at most \<open>k\<close>, \<open>deploy\<close> returns \<open>ConflictExhausted\<close>
  after \<open>steps\<close> cycles, each with its own read, and has written nothing. If \<open>k\<close> is below the
  bound and cycle \<open>k\<close> succeeds, \<open>deploy\<close> returns \<^verbatim>\<open>nil\<close> after \<open>k + 1\<close> reads, and its one
  and only write is the transform applied to the descriptor the server held at the last read,
  which the store then holds.
\<close>

theorem deploy_retries_conflicts_up_to_bound:
  assumes "\<forall>i<k. \<exists>e. fst (attempt op (afterAttempts op i w)) = Done (Some e) \<and> IsConflict e"
  shows "(steps \<le> k \<longrightarrow>
            deploy steps op w = (Done (Some ConflictExhausted), afterAttempts op steps w) \<and>
            gets (afterAttempts op steps w) = gets w + steps \<and>
            written (afterAttempts op steps w) = written w) \<and>
         (k < steps \<and> fst (attempt op (afterAttempts op k w)) = Done None \<longrightarrow>
            deploy steps op w = (Done None, afterAttempts op (Suc k) w) \<and>
            gets (afterAttempts op (Suc k) w) = gets w + Suc k \<and>
            (\<exists>d. op (interfere (concurrent (getEvents (afterAttempts op k w)
                                    (gets (afterAttempts op k w))))
                       (store (afterAttempts op k w))) = Some d \<and>
                 store (afterAttempts op (Suc k) w) =
                   d\<lparr>resourceVersion := Suc (resourceVersion d)\<rparr> \<and>
                 written (afterAttempts op (Suc k) w) =
                   written w @ [d\<lparr>resourceVersion := Suc (resourceVersion d)\<rparr>]))"
proof (intro conjI impI)
  assume sk: "steps \<le> k"
  from assms sk
  have c: "\<forall>i<steps. \<exists>e. fst (attempt op (afterAttempts op i w)) = Done (Some e) \<and> IsConflict e"
    by simp
  from deploy_after_conflicts [OF c order_refl]
  show "deploy steps op w = (Done (Some ConflictExhausted), afterAttempts op steps w)"
    by simp
  show "gets (afterAttempts op steps w) = gets w + steps"
    by (rule afterAttempts_gets)
  show "written (afterAttempts op steps w) = written w"
    by (rule afterAttempts_written [OF conflicts_not_ok [OF c]])
next
  assume a: "k < steps \<and> fst (attempt op (afterAttempts op k w)) = Done None"
  then obtain m where m: "steps - k = Suc m"
    by (cases "steps - k") auto
  from a have "k \<le> steps" by simp
  from deploy_after_conflicts [OF assms this] a
  show "deploy steps op w = (Done None, afterAttempts op (Suc k) w)"
    by (simp add: m RetryOnConflict_unfold afterAttempts_Suc del: RetryOnConflict.simps)
  show "gets (afterAttempts op (Suc k) w) = gets w + Suc k"
    by (rule afterAttempts_gets)
  from a have ok: "fst (attempt op (afterAttempts op k w)) = Done None" by simp
  from attempt_ok [OF ok] afterAttempts_written [OF conflicts_not_ok [OF assms]]
  show "\<exists>d. op (interfere (concurrent (getEvents (afterAttempts op k w)
                                    (gets (afterAttempts op k w))))
                       (store (afterAttempts op k w))) = Some d \<and>
                 store (afterAttempts op (Suc k) w) =
                   d\<lparr>resourceVersion := Suc (resourceVersion d)\<rparr> \<and>
                 written (afterAttempts op (Suc k) w) =
                   written w @ [d\<lparr>resourceVersion := Suc (resourceVersion d)\<rparr>]"
    by (auto simp: afterAttempts_Suc)
qed

theorem deploy_retries_conflicts_up_to_bound_witness:
  "fst (attempt (setImage ''redis:doesntexist'')
          (afterAttempts (setImage ''redis:doesntexist'') 0 (conflictWorld 2))) =
     Done (Some (ApiError Conflict ''the object has been modified'')) \<and>
   fst (attempt (setImage ''redis:doesntexist'')
          (afterAttempts (setImage ''redis:doesntexist'') (Suc 0) (conflictWorld 2))) =
     Done (Some (ApiError Conflict ''the object has been modified'')) \<and>
   fst (attempt (setImage ''redis:doesntexist'')
          (afterAttempts (setImage ''redis:doesntexist'') (Suc (Suc 0)) (conflictWorld 2))) =
     Done None \<and>
   fst (deploy 2 (setImage ''redis:doesntexist'') (conflictWorld 2)) =
     Done (Some ConflictExhausted) \<and>
   written (snd (deploy 2 (setImage ''redis:doesntexist'') (conflictWorld 2))) = [] \<and>
   fst (deploy 3 (setImage ''redis:doesntexist'') (conflictWorld 2)) = Done None \<and>
   gets (snd (deploy 3 (setImage ''redis:doesntexist'') (conflictWorld 2))) = 3 \<and>
   written (snd (deploy 3 (setImage ''redis:doesntexist'') (conflictWorld 2))) =
     [\<lparr>dname = ''redis'', resourceVersion = 4, replicas = 4,
       containers = [\<lparr>cname = ''redis'', image = ''redis:doesntexist''\<rparr>]\<rparr>]"
proof -
  let ?op = "setImage ''redis:doesntexist''"
  let ?w = "conflictWorld 2"
  have c0: "fst (attempt ?op (afterAttempts ?op 0 ?w)) =
      Done (Some (ApiError Conflict ''the object has been modified''))"
    by (simp add: conflictWorld_def world_defs attempt_eval)
  have c1: "fst (attempt ?op (afterAttempts ?op (Suc 0) ?w)) =
      Done (Some (ApiError Conflict ''the object has been modified''))"
    by (simp add: conflictWorld_def world_defs attempt_eval)
  have ok: "fst (attempt ?op (afterAttempts ?op (Suc (Suc 0)) ?w)) = Done None"
    by (simp add: conflictWorld_def world_defs attempt_eval)
  have h: "\<forall>i<Suc (Suc 0). \<exists>e. fst (attempt ?op (afterAttempts ?op i ?w)) = Done (Some e) \<and>
      IsConflict e"
    using c0 c1 by (simp add: All_less_Suc IsConflict_def)
  have wr: "written (afterAttempts ?op (Suc (Suc (Suc 0))) ?w) =
     [\<lparr>dname = ''redis'', resourceVersion = 4, replicas = 4,
       containers = [\<lparr>cname = ''redis'', image = ''redis:doesntexist''\<rparr>]\<rparr>]"
    by (simp add: conflictWorld_def world_defs attempt_eval)
  have w0: "written ?w = []"
    by (simp add: conflictWorld_def cluster_def)
  have g0: "gets ?w = 0"
    by (simp add: conflictWorld_def cluster_def)
  from deploy_retries_conflicts_up_to_bound [OF h, of 2]
  have e: "deploy 2 ?op ?w = (Done (Some ConflictExhausted), afterAttempts ?op 2 ?w)"
    "written (afterAttempts ?op 2 ?w) = written ?w"
    by simp_all
  from deploy_retries_conflicts_up_to_bound [OF h, of 3] ok
  have s: "deploy 3 ?op ?w = (Done None, afterAttempts ?op (Suc (Suc (Suc 0))) ?w)"
    "gets (afterAttempts ?op (Suc (Suc (Suc 0))) ?w) = gets ?w + 3"
    by simp_all
  show ?thesis
    using c0 c1 ok by (simp add: e s wr w0 g0)
qed



text \<open>
  C6. When the check of line 42 does not answer \<open>(true, nil)\<close>, \<open>main\<close> panics at
  line 43 with the check's error. It has made the one read of line 36 and no update, it has
  written nothing, and the store is the one that read saw (the initial one when no other
  writer came before the read).
\<close>

theorem main_aborts_before_mutation:
  assumes "Get w = (Inr originalDeployment, w1)"
    and "fst (podContainersRunning w1) \<noteq> (True, None)"
  shows "main steps w =
           (Panicked (PanicNotAllRunning (snd (fst (podContainersRunning w1)))),
            snd (podContainersRunning w1)) \<and>
         store (snd (main steps w)) = store w1 \<and>
         (concurrent (getEvents w (gets w)) = None \<longrightarrow> store (snd (main steps w)) = store w) \<and>
         gets (snd (main steps w)) = Suc (gets w) \<and>
         updates (snd (main steps w)) = updates w \<and>
         written (snd (main steps w)) = written w"
proof -
  have w1: "w1 = snd (Get w)" "fst (Get w) = Inr originalDeployment"
    using assms(1) by simp_all
  have m: "main steps w =
           (Panicked (PanicNotAllRunning (snd (fst (podContainersRunning w1)))),
            snd (podContainersRunning w1))"
    using assms(2) w1 by (cases "fst (podContainersRunning w1)") (auto simp: main_unfold)
  show ?thesis
    unfolding m by (simp add: w1(1) podContainersRunning_eq interfere_def)
qed

theorem main_aborts_before_mutation_witness:
  "Get unhealthyWorld = (Inr redisDeployment, snd (Get unhealthyWorld)) \<and>
   fst (podContainersRunning (snd (Get unhealthyWorld))) \<noteq> (True, None) \<and>
   fst (main 5 unhealthyWorld) = Panicked (PanicNotAllRunning None) \<and>
   store (snd (main 5 unhealthyWorld)) = store unhealthyWorld \<and>
   updates (snd (main 5 unhealthyWorld)) = updates unhealthyWorld \<and>
   written (snd (main 5 unhealthyWorld)) = written unhealthyWorld"
proof -
  have h1: "Get unhealthyWorld = (Inr redisDeployment, snd (Get unhealthyWorld))"
    by (simp add: unhealthyWorld_def cluster_def quiet_def Get_def interfere_def Let_def)
  have h2: "fst (podContainersRunning (snd (Get unhealthyWorld))) = (False, None)"
    by (simp add: unhealthyWorld_def world_defs Get_def interfere_def podContainersRunning_eq Let_def)
  have h3: "concurrent (getEvents unhealthyWorld (gets unhealthyWorld)) = None"
    by (simp add: unhealthyWorld_def cluster_def quiet_def)
  have h2': "fst (podContainersRunning (snd (Get unhealthyWorld))) \<noteq> (True, None)"
    using h2 by simp
  note r = main_aborts_before_mutation [OF h1 h2', of 5]
  from r h2 have "fst (main 5 unhealthyWorld) = Panicked (PanicNotAllRunning None)"
    by simp
  moreover from r h3 have "store (snd (main 5 unhealthyWorld)) = store unhealthyWorld"
    by blast
  moreover from r have "updates (snd (main 5 unhealthyWorld)) = updates unhealthyWorld"
    by blast
  moreover from r have "written (snd (main 5 unhealthyWorld)) = written unhealthyWorld"
    by blast
  ultimately show ?thesis using h1 h2' by blast
qed

text \<open>
  C7. Each transform panics exactly when a container list it indexes is empty.
  Otherwise the descriptor it yields has the same name, version token, replica count, number of
  containers, container name and remaining containers as the one it was given: it is that
  descriptor with the image of the first container replaced, by the new image in one case and
  by the first image of \<^verbatim>\<open>originalDeployment\<close> in the other.
\<close>

theorem transforms_change_only_image:
  "(setImage img d = None) = (containers d = []) \<and>
   (restoreImage orig d = None) = (containers orig = [] \<or> containers d = []) \<and>
   (\<forall>d'. setImage img d = Some d' \<or> restoreImage orig d = Some d' \<longrightarrow>
      dname d' = dname d \<and> resourceVersion d' = resourceVersion d \<and> replicas d' = replicas d \<and>
      length (containers d') = length (containers d) \<and>
      tl (containers d') = tl (containers d) \<and>
      cname (hd (containers d')) = cname (hd (containers d)) \<and>
      d' = d\<lparr>containers := (hd (containers d))\<lparr>image := image (hd (containers d'))\<rparr>
                              # tl (containers d)\<rparr>) \<and>
   (\<forall>d'. setImage img d = Some d' \<longrightarrow> image (hd (containers d')) = img) \<and>
   (\<forall>d'. restoreImage orig d = Some d' \<longrightarrow>
      image (hd (containers d')) = image (hd (containers orig)))"
proof (intro conjI allI impI)
  show "(setImage img d = None) = (containers d = [])"
    by (rule setImage_None)
  show "(restoreImage orig d = None) = (containers orig = [] \<or> containers d = [])"
    by (rule restoreImage_None)
next
  fix d' assume "setImage img d = Some d'"
  then show "image (hd (containers d')) = img"
    using setImage_frame by blast
next
  fix d' assume "restoreImage orig d = Some d'"
  then show "image (hd (containers d')) = image (hd (containers orig))"
    using restoreImage_setImage setImage_frame by blast
next
  fix d' assume "setImage img d = Some d' \<or> restoreImage orig d = Some d'"
  then obtain i where i: "setImage i d = Some d'"
    using restoreImage_setImage by blast
  note f = setImage_frame [OF i]
  from f show "dname d' = dname d" by blast
  from f show "resourceVersion d' = resourceVersion d" by blast
  from f show "replicas d' = replicas d" by blast
  from f show "length (containers d') = length (containers d)" by blast
  from f show "tl (containers d') = tl (containers d)" by blast
  from f show "cname (hd (containers d')) = cname (hd (containers d))" by blast
  from f show "d' = d\<lparr>containers := (hd (containers d))\<lparr>image := image (hd (containers d'))\<rparr>
                              # tl (containers d)\<rparr>" by blast
qed

theorem transforms_change_only_image_witness:
  "setImage ''redis:doesntexist'' redisDeployment =
     Some (redisDeployment\<lparr>containers := [\<lparr>cname = ''redis'', image = ''redis:doesntexist''\<rparr>]\<rparr>) \<and>
   dname (redisDeployment\<lparr>containers := [\<lparr>cname = ''redis'', image = ''redis:doesntexist''\<rparr>]\<rparr>) =
     dname redisDeployment \<and>
   replicas (redisDeployment\<lparr>containers := [\<lparr>cname = ''redis'', image = ''redis:doesntexist''\<rparr>]\<rparr>) =
     replicas redisDeployment \<and>
   image (hd (containers (redisDeployment\<lparr>containers := [\<lparr>cname = ''redis'', image = ''redis:doesntexist''\<rparr>]\<rparr>))) =
     ''redis:doesntexist''"
proof -
  have h: "setImage ''redis:doesntexist'' redisDeployment =
      Some (redisDeployment\<lparr>containers := [\<lparr>cname = ''redis'', image = ''redis:doesntexist''\<rparr>]\<rparr>)"
    by (simp add: setImage_def redisDeployment_def)
  from transforms_change_only_image [of "''redis:doesntexist''" redisDeployment redisDeployment] h show ?thesis
    by blast
qed

text \<open>
  C8. Whenever \<open>main\<close> gets as far as a successful rollback write (it ends normally, or
  panics at line 67 after the second wait), the first container of the stored descriptor
  carries the image that the read of line 36 returned. In this model no other writer acts after
  that last write.
\<close>

theorem rollback_restores_snapshot_image:
  assumes "Get w = (Inr originalDeployment, w1)"
    and "fst (main steps w) = Done () \<or> (\<exists>e. fst (main steps w) = Panicked (PanicWait e))"
  shows "\<exists>oc ocs c cs. containers originalDeployment = oc # ocs \<and>
           containers (store (snd (main steps w))) = c # cs \<and> image c = image oc"
proof -
  let ?w2 = "snd (podContainersRunning (snd (Get w)))"
  let ?w3 = "snd (deploy steps (setImage ''redis:doesntexist'') ?w2)"
  let ?w4 = "snd (waitForPodContainersRunning ?w3)"
  let ?w5 = "if fst (waitForPodContainersRunning ?w3) = None
             then println ''Deploy successful'' ?w4 else ?w4"
  have g: "fst (Get w) = Inr originalDeployment" using assms(1) by simp
  have "main steps w = rollBack steps originalDeployment ?w5"
  proof (cases "fst (deploy steps (setImage ''redis:doesntexist'') ?w2)")
    case (Done r)
    with assms(2) g show ?thesis
      by (cases r) (auto simp: main_unfold split: if_splits)
  next
    case (Panicked p)
    with retry_panic_kind [of steps "setImage ''redis:doesntexist''" ?w2 p] assms(2) g
    show ?thesis
      by (auto simp: main_unfold deploy_def split: if_splits)
  qed
  with rollBack_restores [of steps originalDeployment ?w5] assms(2) show ?thesis
    by simp
qed

theorem rollback_restores_snapshot_image_witness:
  "Get stuckWorld = (Inr redisDeployment, snd (Get stuckWorld)) \<and>
   fst (main 5 stuckWorld) = Done () \<and>
   image (hd (containers (store (snd (main 5 stuckWorld))))) =
     image (hd (containers redisDeployment))"
proof -
  have h1: "Get stuckWorld = (Inr redisDeployment, snd (Get stuckWorld))"
    by (simp add: stuckWorld_def cluster_def quiet_def Get_def interfere_def Let_def)
  have h2: "fst (main 5 stuckWorld) = Done ()"
    by (simp add: stuckWorld_def world_defs run_defs eval_defs del: RetryOnConflict.simps)
  from rollback_restores_snapshot_image [OF h1 disjI1 [OF h2]]
  have "image (hd (containers (store (snd (main 5 stuckWorld))))) =
      image (hd (containers redisDeployment))"
    by auto
  with h1 h2 show ?thesis by blast
qed

text \<open>
  C9. When the first poll finds every pod ready, the wait returns \<^verbatim>\<open>nil\<close> after
  exactly one tick: one timer interval, one list call, and the time that call took.
\<close>

theorem wait_returns_after_first_tick:
  assumes "answer (listAnswers w (lists w)) = Inr pods"
    and "itemsReady pods"
  shows "waitForPodContainersRunning w =
           (None, w\<lparr>clock := clock w + deployRunningCheckInterval + delay (listAnswers w (lists w)),
                    lists := Suc (lists w)\<rparr>) \<and>
         lists (snd (waitForPodContainersRunning w)) = Suc (lists w) \<and>
         clock (snd (waitForPodContainersRunning w)) =
           clock w + deployRunningCheckInterval + delay (listAnswers w (lists w))"
  using wait_first_poll_ready [OF assms] by simp

theorem wait_returns_after_first_tick_witness:
  "answer (listAnswers healthyWorld (lists healthyWorld)) =
     Inr [readyPod ''redis-1'', readyPod ''redis-2''] \<and>
   itemsReady [readyPod ''redis-1'', readyPod ''redis-2''] \<and>
   fst (waitForPodContainersRunning healthyWorld) = None \<and>
   lists (snd (waitForPodContainersRunning healthyWorld)) = Suc (lists healthyWorld) \<and>
   clock (snd (waitForPodContainersRunning healthyWorld)) = clock healthyWorld + deployRunningCheckInterval"
proof -
  have h1: "answer (listAnswers healthyWorld (lists healthyWorld)) =
     Inr [readyPod ''redis-1'', readyPod ''redis-2'']"
    by (simp add: healthyWorld_def cluster_def)
  have h2: "itemsReady [readyPod ''redis-1'', readyPod ''redis-2'']"
    by (simp add: readyPod_def)
  have h3: "delay (listAnswers healthyWorld (lists healthyWorld)) = 0"
    by (simp add: healthyWorld_def cluster_def)
  from wait_returns_after_first_tick [OF h1 h2] h1 h2 h3 show ?thesis by simp
qed


end
